theory Spec2Isabelle
  imports Complex_Main "HOL-Library.AList"
begin

section \<open>The Markov model of markov-model.js\<close>

text \<open>
  The theory embeds \<^verbatim>\<open>src/markov-model.js\<close>: the constructor \<^verbatim>\<open>Markov\<close>, \<^verbatim>\<open>train\<close>,
  \<^verbatim>\<open>generate\<close>, \<^verbatim>\<open>score\<close>, \<^verbatim>\<open>toJSON\<close> and \<^verbatim>\<open>fromJSON\<close>, with the helpers they call.

  Conventions of the embedding.
  \<^item> A symbol is the string under which the source looks it up in \<^verbatim>\<open>symbolMap\<close>
    (a JavaScript property name). Names inherited from \<^verbatim>\<open>Object.prototype\<close> are outside
    the symbol type: \<^verbatim>\<open>symbolMap\<close> is the map of its own properties.
  \<^item> \<^verbatim>\<open>undefined\<close> is \<open>None\<close>.
  \<^item> Counts are natural numbers. Quotients, cumulative masses and scores are of the
    type \<open>num\<close>: an exact rational, \<^verbatim>\<open>Infinity\<close> or \<^verbatim>\<open>NaN\<close>. The source never
    computes a negative number, so there is no negative infinity and no negative zero.
    The rounding of IEEE doubles is not modelled.
  \<^item> \<^verbatim>\<open>Math.random()\<close> is read from a sequence of draws \<open>rnd :: nat \<Rightarrow> rat\<close>, the
    \<open>k\<close>-th call returning \<open>rnd k\<close>.
  \<^item> An exception is a value of the type \<open>error\<close>, returned as \<open>Inl\<close>.
  \<^item> Arrays, strings and objects are as large as the program makes them: the memory
    and string-length limits of an engine are not modelled.
\<close>

subsection \<open>Numbers\<close>

datatype error = RangeError | TypeError

datatype num = Num rat | Infinity | NaN

text \<open>\<^verbatim>\<open>a + b\<close> on non-negative numbers.\<close>

fun num_add :: "num \<Rightarrow> num \<Rightarrow> num" where
  "num_add NaN b = NaN"
| "num_add a NaN = NaN"
| "num_add Infinity b = Infinity"
| "num_add a Infinity = Infinity"
| "num_add (Num a) (Num b) = Num (a + b)"

text \<open>\<^verbatim>\<open>a / b\<close> on non-negative numbers: \<^verbatim>\<open>0 / 0\<close> is \<^verbatim>\<open>NaN\<close>, and \<^verbatim>\<open>a / 0\<close> is
  \<^verbatim>\<open>Infinity\<close> for a positive \<^verbatim>\<open>a\<close>.\<close>

fun num_div :: "num \<Rightarrow> num \<Rightarrow> num" where
  "num_div NaN b = NaN"
| "num_div a NaN = NaN"
| "num_div Infinity Infinity = NaN"
| "num_div Infinity (Num b) = Infinity"
| "num_div (Num a) Infinity = Num 0"
| "num_div (Num a) (Num b) = (if b = 0 then (if a = 0 then NaN else Infinity) else Num (a / b))"

text \<open>\<^verbatim>\<open>rand > a\<close>: every comparison with \<^verbatim>\<open>NaN\<close> is false.\<close>

fun num_gt :: "rat \<Rightarrow> num \<Rightarrow> bool" where
  "num_gt r (Num a) = (r > a)"
| "num_gt r Infinity = False"
| "num_gt r NaN = False"

text \<open>The number read from a property that holds a count, \<^verbatim>\<open>undefined\<close> read as a number
  being \<^verbatim>\<open>NaN\<close>.\<close>

fun of_count :: "nat option \<Rightarrow> num" where
  "of_count None = NaN"
| "of_count (Some n) = Num (of_nat n)"

fun of_num :: "num option \<Rightarrow> num" where
  "of_num None = NaN"
| "of_num (Some a) = a"

subsection \<open>Strings and keys\<close>

text \<open>The decimal numeral of an index, as \<^verbatim>\<open>join\<close> and property access print it.\<close>

definition digit :: "nat \<Rightarrow> char" where
  "digit n = ''0123456789'' ! n"

function show_nat :: "nat \<Rightarrow> string" where
  "show_nat n = (if n < 10 then [digit n] else show_nat (n div 10) @ [digit (n mod 10)])"
  by pat_completeness auto
termination
  by (relation "measure id") auto

declare show_nat.simps [simp del]

text \<open>\<^verbatim>\<open>Array.prototype.join\<close> on the strings of the elements.\<close>

fun join :: "string \<Rightarrow> string list \<Rightarrow> string" where
  "join sep [] = []"
| "join sep [x] = x"
| "join sep (x # y # ys) = x @ sep @ join sep (y # ys)"

text \<open>The string \<^verbatim>\<open>join\<close> prints for an element that is an index or \<^verbatim>\<open>undefined\<close>:
  \<^verbatim>\<open>undefined\<close> is printed as the empty string.\<close>

fun idx_str :: "nat option \<Rightarrow> string" where
  "idx_str None = []"
| "idx_str (Some n) = show_nat n"

text \<open>The property names of a per-prefix object of \<^verbatim>\<open>counts\<close>: the numeral of a suffix
  index, \<^verbatim>\<open>_sum\<close>, or \<^verbatim>\<open>undefined\<close> (the name under which an \<^verbatim>\<open>undefined\<close> suffix
  is looked up).\<close>

datatype key = Idx nat | USum | Undef

fun key_of :: "nat option \<Rightarrow> key" where
  "key_of None = Undef"
| "key_of (Some n) = Idx n"

fun key_str :: "key \<Rightarrow> string" where
  "key_str (Idx n) = show_nat n"
| "key_str USum = ''_sum''"
| "key_str Undef = ''undefined''"

subsection \<open>The per-prefix objects\<close>

text \<open>
  A per-prefix object is created by \<^verbatim>\<open>countPair\<close> as \<^verbatim>\<open>{_sum: 0}\<close> and only gains
  properties afterwards, so it always owns \<^verbatim>\<open>_sum\<close>: the record keeps that property in
  the field \<open>usum\<close> and the other properties, named by a suffix, in \<open>props\<close>.
  \<open>get\<close> reads a property by name and \<open>own_keys\<close> is the order in which
  \<^verbatim>\<open>for (var sfx in obj)\<close> visits the names: the integer names ascending, then the other
  names in the order of their creation, \<^verbatim>\<open>_sum\<close> first since the object is created with it.
\<close>

record chain =
  usum :: nat
  props :: "(nat option \<times> nat) list"

fun get :: "chain \<Rightarrow> key \<Rightarrow> nat option" where
  "get c (Idx n) = map_of (props c) (Some n)"
| "get c USum = Some (usum c)"
| "get c Undef = map_of (props c) None"

definition own_keys :: "chain \<Rightarrow> key list" where
  "own_keys c =
     map Idx (sort (remdups (concat (map (\<lambda>p. case fst p of Some n \<Rightarrow> [n] | None \<Rightarrow> []) (props c)))))
     @ [USum]
     @ (if None \<in> fst ` set (props c) then [Undef] else [])"

subsection \<open>The model\<close>

text \<open>The fields of a \<^verbatim>\<open>Markov\<close> object. \<open>xscore\<close> and \<open>xscoreFactor\<close> are the properties
  \<^verbatim>\<open>_score\<close> and \<^verbatim>\<open>_scoreFactor\<close>, absent until \<^verbatim>\<open>score\<close> is first called.
  \<open>probabilities\<close> is \<open>None\<close> for \<^verbatim>\<open>null\<close>.\<close>

record model =
  depth :: nat
  counts :: "string \<rightharpoonup> chain"
  symbols :: "string list"
  separator :: string
  symbolMap :: "string \<rightharpoonup> nat"
  prePadding :: "string list"
  postPadding :: "string list"
  probabilities :: "(string \<rightharpoonup> (num \<times> key) list) option"
  xscore :: "num option"
  xscoreFactor :: "nat option"

text \<open>
  \<^verbatim>\<open>function Markov(depth)\<close>. The argument is an integer or omitted (\<open>None\<close>).
  \<^verbatim>\<open>depth || 1\<close> replaces an omitted depth and the depth \<open>0\<close> by \<open>1\<close>.
  \<^verbatim>\<open>Array(depth)\<close> throws a \<^verbatim>\<open>RangeError\<close> for a negative length and for a length of
  \<open>2^32\<close> or more; otherwise \<^verbatim>\<open>Array(depth).join(",").split(",")\<close> is \<open>depth\<close> empty strings.
  \<open>new_model d\<close> is the object the constructor leaves for the depth \<open>d\<close>.
\<close>

definition new_model :: "nat \<Rightarrow> model" where
  "new_model d =
     \<lparr> depth = d,
       counts = Map.empty,
       symbols = [''''],
       separator = '','',
       symbolMap = [''''\<mapsto> 0],
       prePadding = replicate d '''',
       postPadding = [''''],
       probabilities = None,
       xscore = None,
       xscoreFactor = None \<rparr>"

definition Markov :: "int option \<Rightarrow> error + model" where
  "Markov d =
     (let depth' = (case d of None \<Rightarrow> 1 | Some n \<Rightarrow> if n = 0 then 1 else n) in
      if depth' < 0 \<or> 2 ^ 32 \<le> depth' then Inl RangeError
      else Inr (new_model (nat depth')))"

subsection \<open>Helpers\<close>

definition padInput :: "model \<Rightarrow> string list \<Rightarrow> string list" where
  "padInput m xs = prePadding m @ xs @ postPadding m"

definition symbolToIndex :: "model \<Rightarrow> string \<Rightarrow> nat option" where
  "symbolToIndex m x = symbolMap m x"

text \<open>\<^verbatim>\<open>addSymbol\<close>: \<^verbatim>\<open>this.symbols.push(x) - 1\<close> is the length of \<^verbatim>\<open>symbols\<close> before the push.\<close>

definition addSymbol :: "string \<Rightarrow> model \<Rightarrow> model" where
  "addSymbol x m =
     (if symbolMap m x = None
      then m\<lparr> symbols := symbols m @ [x], symbolMap := (symbolMap m)(x \<mapsto> length (symbols m)) \<rparr>
      else m)"

text \<open>\<^verbatim>\<open>countPair\<close>: \<^verbatim>\<open>(this.counts[prefix][symbol] || 0) + 1\<close> is the old count plus one,
  an absent count read as \<open>0\<close>.\<close>

definition countPair :: "string \<times> nat option \<Rightarrow> model \<Rightarrow> model" where
  "countPair pair m =
     (let prefix = fst pair; symbol = snd pair;
          c0 = (case counts m prefix of Some c \<Rightarrow> c | None \<Rightarrow> \<lparr> usum = 0, props = [] \<rparr>);
          c1 = c0\<lparr> props := AList.update symbol
                    ((case map_of (props c0) symbol of Some n \<Rightarrow> n | None \<Rightarrow> 0) + 1) (props c0) \<rparr>;
          c2 = c1\<lparr> usum := usum c1 + 1 \<rparr>
      in m\<lparr> counts := (counts m)(prefix \<mapsto> c2) \<rparr>)"

text \<open>\<^verbatim>\<open>prefix\<close>: \<^verbatim>\<open>xs.slice(i, i + this.depth).join(this.separator)\<close>.\<close>

definition prefix :: "model \<Rightarrow> nat option list \<Rightarrow> nat \<Rightarrow> string" where
  "prefix m xs i = join (separator m) (map idx_str (take (depth m) (drop i xs)))"

text \<open>\<^verbatim>\<open>xs[j]\<close> on an array of indexes: \<^verbatim>\<open>undefined\<close> out of range.\<close>

definition elem_at :: "nat option list \<Rightarrow> nat \<Rightarrow> nat option" where
  "elem_at xs j = (if j < length xs then xs ! j else None)"

text \<open>\<^verbatim>\<open>forEachPrefixPair\<close>: the bound \<^verbatim>\<open>l\<close> is computed once; each round calls \<open>f\<close> on the
  pair of the \<open>i\<close>-th prefix and the symbol that follows it.\<close>

definition forEachPrefixPair ::
  "(string \<times> nat option \<Rightarrow> model \<Rightarrow> model) \<Rightarrow> nat option list \<Rightarrow> model \<Rightarrow> model" where
  "forEachPrefixPair f xs m =
     fold (\<lambda>i m'. f (prefix m' xs i, elem_at xs (i + depth m')) m') [0 ..< length xs - depth m] m"

definition resetProbabilities :: "model \<Rightarrow> model" where
  "resetProbabilities m = m\<lparr> probabilities := None \<rparr>"

subsection \<open>Training\<close>

text \<open>\<^verbatim>\<open>train\<close> is the composition of \<^verbatim>\<open>map addSymbol\<close>, \<^verbatim>\<open>padInput\<close>, \<^verbatim>\<open>map symbolToIndex\<close>,
  \<^verbatim>\<open>forEachPrefixPair countPair\<close> and \<^verbatim>\<open>resetProbabilities\<close>, each applied to the model
  the one before left.\<close>

definition train :: "string list \<Rightarrow> model \<Rightarrow> model" where
  "train xs m =
     (let m1 = fold addSymbol xs m;
          padded = padInput m1 xs;
          idxs = map (symbolToIndex m1) padded;
          m2 = forEachPrefixPair countPair idxs m1
      in resetProbabilities m2)"

subsection \<open>Scoring\<close>

definition scorePair :: "string \<times> nat option \<Rightarrow> model \<Rightarrow> model" where
  "scorePair pair m =
     (let pfx = fst pair; sfx = key_of (snd pair) in
      case counts m pfx of
        None \<Rightarrow> m
      | Some c \<Rightarrow>
          (case get c sfx of
             None \<Rightarrow> m
           | Some n \<Rightarrow>
               if n = 0 then m
               else m\<lparr> xscore := Some (num_add (of_num (xscore m))
                                        (num_div (of_count (Some n)) (of_count (get c USum)))) \<rparr>))"

text \<open>\<^verbatim>\<open>score\<close> returns the quotient and leaves the model with the two accumulators set.\<close>

definition score :: "string list \<Rightarrow> model \<Rightarrow> num \<times> model" where
  "score xs m =
     (let m1 = m\<lparr> xscore := Some (Num 0), xscoreFactor := Some (length xs) \<rparr>;
          padded = padInput m1 xs;
          idxs = map (symbolToIndex m1) padded;
          m2 = forEachPrefixPair scorePair idxs m1
      in (num_div (of_num (xscore m2)) (of_count (xscoreFactor m2)), m2))"

subsection \<open>The probability index\<close>

text \<open>The inner loop of \<^verbatim>\<open>updateProbabilities\<close>: \<open>upper\<close> is the running sum, and each
  visited property name \<open>sfx\<close> is pushed with the sum reached at it. The loop visits
  every name of \<open>own_keys\<close>.\<close>

fun cumulate :: "chain \<Rightarrow> num \<Rightarrow> key list \<Rightarrow> (num \<times> key) list" where
  "cumulate c upper [] = []"
| "cumulate c upper (sfx # ks) =
     (let upper' = num_add upper (num_div (of_count (get c sfx)) (of_count (get c USum)))
      in (upper', sfx) # cumulate c upper' ks)"

text \<open>\<^verbatim>\<open>updateProbabilities\<close>: the new index has an entry for exactly the prefixes of
  \<^verbatim>\<open>counts\<close>.\<close>

definition updateProbabilities :: "model \<Rightarrow> model" where
  "updateProbabilities m =
     m\<lparr> probabilities :=
          Some (\<lambda>pfx. case counts m pfx of
                        None \<Rightarrow> None
                      | Some c \<Rightarrow> Some (cumulate c (Num 0) (own_keys c))) \<rparr>"

subsection \<open>Generation\<close>

text \<open>The scan of \<^verbatim>\<open>genSuffix\<close>: it stops at the first entry whose mass is not below the
  draw. Past the last entry \<^verbatim>\<open>this.probabilities[pfx][i]\<close> is \<^verbatim>\<open>undefined\<close>, and reading
  its component \<^verbatim>\<open>[1]\<close> throws a \<^verbatim>\<open>TypeError\<close>.\<close>

fun scan :: "(num \<times> key) list \<Rightarrow> rat \<Rightarrow> error + key" where
  "scan [] rand = Inl TypeError"
| "scan (e # es) rand = (if num_gt rand (fst e) then scan es rand else Inr (snd e))"

text \<open>\<^verbatim>\<open>genSuffix\<close>: for a prefix without an entry \<^verbatim>\<open>this.probabilities[pfx]\<close> is
  \<^verbatim>\<open>undefined\<close>, and reading its component \<^verbatim>\<open>[i]\<close> throws a \<^verbatim>\<open>TypeError\<close>.\<close>

definition genSuffix :: "model \<Rightarrow> string \<Rightarrow> rat \<Rightarrow> error + key" where
  "genSuffix m pfx rand =
     (case probabilities m of
        None \<Rightarrow> Inl TypeError
      | Some P \<Rightarrow> (case P pfx of None \<Rightarrow> Inl TypeError | Some probs \<Rightarrow> scan probs rand))"

text \<open>\<^verbatim>\<open>this.symbols[sfx]\<close> for a property name \<open>sfx\<close>: \<^verbatim>\<open>undefined\<close> unless the name is
  the numeral of a position of the array.\<close>

fun symbol_at :: "model \<Rightarrow> key \<Rightarrow> string option" where
  "symbol_at m (Idx n) = (if n < length (symbols m) then Some (symbols m ! n) else None)"
| "symbol_at m USum = None"
| "symbol_at m Undef = None"

text \<open>
  The loop of \<^verbatim>\<open>generate\<close>. The state is \<^verbatim>\<open>string\<close>, \<^verbatim>\<open>pfx\<close> (each element as the string
  \<^verbatim>\<open>join\<close> prints for it), \<^verbatim>\<open>sfx\<close>, \<^verbatim>\<open>zCount\<close> and the number \<open>k\<close> of draws made so far.
  \<^verbatim>\<open>sfx != 0\<close> compares a property name with the number \<open>0\<close>: only the name \<^verbatim>\<open>"0"\<close> is
  equal to it. The loop returns \<^verbatim>\<open>string\<close> together with \<^verbatim>\<open>zCount\<close>.
\<close>

function gen_loop ::
  "model \<Rightarrow> nat \<Rightarrow> nat \<Rightarrow> (nat \<Rightarrow> rat) \<Rightarrow> nat \<Rightarrow> string option list \<Rightarrow> string list \<Rightarrow> key \<Rightarrow> nat
     \<Rightarrow> error + (string option list \<times> nat)" where
  "gen_loop m minLength maxLength rnd k string pfx sfx zCount =
     (if (length string < maxLength \<and> sfx \<noteq> Idx 0) \<or> length string < minLength then
        (if sfx \<noteq> Idx 0 then
           (let string' = string @ [symbol_at m sfx];
                pfx' = tl (pfx @ [key_str sfx])
            in case genSuffix m (join (separator m) pfx') (rnd k) of
                 Inl e \<Rightarrow> Inl e
               | Inr sfx' \<Rightarrow> gen_loop m minLength maxLength rnd (k + 1) string' pfx' sfx' zCount)
         else if zCount + 1 > 15 then Inr (string, zCount + 1)
         else (case genSuffix m (join (separator m) pfx) (rnd k) of
                 Inl e \<Rightarrow> Inl e
               | Inr sfx' \<Rightarrow> gen_loop m minLength maxLength rnd (k + 1) string pfx sfx' (zCount + 1)))
      else Inr (string, zCount))"
  by pat_completeness auto
termination
  by (relation "measure (\<lambda>(m, minLength, maxLength, rnd, k, string, pfx, sfx, zCount).
        (max minLength maxLength - length string) + (16 - zCount))") auto

declare gen_loop.simps [simp del]

text \<open>
  \<^verbatim>\<open>generate(minLength, maxLength)\<close>, with \<open>None\<close> for an omitted \<^verbatim>\<open>maxLength\<close>;
  \<^verbatim>\<open>maxLength || minLength\<close> replaces an omitted \<^verbatim>\<open>maxLength\<close> and the value \<open>0\<close>.
  \<open>generate_run\<close> is the body after the probability index has been rebuilt, with the
  final \<^verbatim>\<open>zCount\<close> kept; \<open>generate\<close> returns the outcome and the model the call leaves
  (the rebuilt index stays in place also when the call throws).
\<close>

definition generate_run ::
  "nat \<Rightarrow> nat option \<Rightarrow> (nat \<Rightarrow> rat) \<Rightarrow> model \<Rightarrow> error + (string option list \<times> nat)" where
  "generate_run minLength maxLength rnd m =
     (let maxLength' = (case maxLength of None \<Rightarrow> minLength
                        | Some n \<Rightarrow> if n = 0 then minLength else n);
          pfx = map (\<lambda>x. idx_str (symbolToIndex m x)) (prePadding m)
      in case genSuffix m (join (separator m) pfx) (rnd 0) of
           Inl e \<Rightarrow> Inl e
         | Inr sfx \<Rightarrow> gen_loop m minLength maxLength' rnd 1 [] pfx sfx 0)"

definition generate ::
  "nat \<Rightarrow> nat option \<Rightarrow> (nat \<Rightarrow> rat) \<Rightarrow> model \<Rightarrow> (error + string option list) \<times> model" where
  "generate minLength maxLength rnd m =
     (let m1 = (if probabilities m = None then updateProbabilities m else m)
      in (map_sum id fst (generate_run minLength maxLength rnd m1), m1))"

subsection \<open>Snapshots\<close>

text \<open>The object \<^verbatim>\<open>toJSON\<close> returns. \<^verbatim>\<open>JSON.stringify\<close> followed by \<^verbatim>\<open>JSON.parse\<close> gives
  back an object with the same properties and values, so \<^verbatim>\<open>fromJSON\<close> takes the
  snapshot itself.\<close>

record snapshot =
  s_depth :: nat
  s_symbols :: "string list"
  s_counts :: "string \<rightharpoonup> chain"

definition toJSON :: "model \<Rightarrow> snapshot" where
  "toJSON m = \<lparr> s_depth = depth m, s_symbols = symbols m, s_counts = counts m \<rparr>"

definition fromJSON :: "snapshot \<Rightarrow> error + model" where
  "fromJSON obj =
     (case Markov (Some (int (s_depth obj))) of
        Inl e \<Rightarrow> Inl e
      | Inr M \<Rightarrow> Inr ((fold addSymbol (s_symbols obj) M)\<lparr> counts := s_counts obj \<rparr>))"

subsection \<open>Observations used in the statements\<close>

text \<open>The pairs \<^verbatim>\<open>forEachPrefixPair\<close> visits on the index sequence \<open>xs\<close>, in order, and
  the pairs of an input sequence: those of its padded index sequence under the
  symbol table of the model.\<close>

definition pairs :: "model \<Rightarrow> nat option list \<Rightarrow> (string \<times> nat option) list" where
  "pairs m xs = map (\<lambda>i. (prefix m xs i, elem_at xs (i + depth m))) [0 ..< length xs - depth m]"

definition windows :: "model \<Rightarrow> string list \<Rightarrow> (string \<times> nat option) list" where
  "windows m xs = pairs m (map (symbolToIndex m) (padInput m xs))"

text \<open>The number \<^verbatim>\<open>counts\<close> holds for a prefix under a property name (\<open>USum\<close> for the
  total of the prefix), \<open>0\<close> when the prefix or the property is absent.\<close>

definition count_of :: "model \<Rightarrow> string \<Rightarrow> key \<Rightarrow> nat" where
  "count_of m p k =
     (case counts m p of None \<Rightarrow> 0 | Some c \<Rightarrow> (case get c k of None \<Rightarrow> 0 | Some n \<Rightarrow> n))"

subsection \<open>Reachable models\<close>

text \<open>
  The symbol table is in order when \<^verbatim>\<open>symbols\<close> starts with the boundary symbol, has no
  symbol twice, and \<^verbatim>\<open>symbolMap\<close> sends each symbol to its position. A model is well
  formed when its table is in order and its other fixed fields are as the constructor
  left them. The reachable models are those an application gets from the
  constructor by calls of \<^verbatim>\<open>train\<close>, \<^verbatim>\<open>generate\<close> and \<^verbatim>\<open>score\<close> and by serialising
  and deserialising.
\<close>

definition table_ok :: "model \<Rightarrow> bool" where
  "table_ok m \<longleftrightarrow>
     symbols m \<noteq> [] \<and> symbols m ! 0 = '''' \<and> distinct (symbols m) \<and>
     (\<forall>x i. symbolMap m x = Some i \<longleftrightarrow> (i < length (symbols m) \<and> symbols m ! i = x))"

definition well_formed :: "model \<Rightarrow> bool" where
  "well_formed m \<longleftrightarrow>
     table_ok m \<and> 1 \<le> depth m \<and> depth m < 2 ^ 32 \<and> separator m = '','' \<and>
     prePadding m = replicate (depth m) '''' \<and> postPadding m = ['''']"

inductive reachable :: "model \<Rightarrow> bool" where
  r_new: "Markov d = Inr m \<Longrightarrow> reachable m"
| r_train: "reachable m \<Longrightarrow> reachable (train xs m)"
| r_generate: "reachable m \<Longrightarrow> reachable (snd (generate minLength maxLength rnd m))"
| r_score: "reachable m \<Longrightarrow> reachable (snd (score xs m))"
| r_json: "reachable m \<Longrightarrow> fromJSON (toJSON m) = Inr m' \<Longrightarrow> reachable m'"

subsection \<open>Invariants of the counts\<close>

text \<open>
  A per-prefix object is in order when it has at least one suffix, each suffix is an
  index with a positive count, and \<^verbatim>\<open>_sum\<close> is the sum of the counts. \<open>state_key\<close> is the
  key under which \<^verbatim>\<open>generate\<close> looks up a window of indexes. The counts are in order
  when every object is, every window followed by a suffix other than the boundary has
  the shifted window among the prefixes, and the window of boundary indexes is a prefix
  as soon as there is any prefix. The probability index is in order when it is absent or
  is the one a rebuild would compute from the counts.
\<close>

definition chain_ok :: "chain \<Rightarrow> bool" where
  "chain_ok c \<longleftrightarrow>
     props c \<noteq> [] \<and> distinct (map fst (props c)) \<and>
     (\<forall>e \<in> set (props c). fst e \<noteq> None \<and> 0 < snd e) \<and>
     usum c = sum_list (map snd (props c))"




section \<open>Properties\<close>

subsection \<open>The constructor\<close>




subsection \<open>Scoring\<close>

text \<open>\<^verbatim>\<open>score\<close> changes the two accumulators and nothing else.\<close>

lemma scorePair_frame: "scorePair pair m = m\<lparr> xscore := xscore (scorePair pair m) \<rparr>"
  unfolding scorePair_def Let_def
  by (simp split: option.splits)

lemma fold_scorePair_frame:
  "fold (\<lambda>i m'. scorePair (g m' i) m') is m =
     m\<lparr> xscore := xscore (fold (\<lambda>i m'. scorePair (g m' i) m') is m) \<rparr>"
proof (induction "is" arbitrary: m)
  case Nil
  show ?case by simp
next
  case (Cons i "is")
  let ?F = "fold (\<lambda>i m'. scorePair (g m' i) m') is"
  let ?m' = "scorePair (g m i) m"
  have "?F ?m' = ?m'\<lparr> xscore := xscore (?F ?m') \<rparr>"
    by (rule Cons.IH)
  also have "\<dots> = m\<lparr> xscore := xscore (?F ?m') \<rparr>"
    by (subst scorePair_frame) simp
  finally show ?case by simp
qed

lemma score_state:
  "snd (score xs m) = m\<lparr> xscore := xscore (snd (score xs m)), xscoreFactor := Some (length xs) \<rparr>"
proof -
  define m1 where "m1 = m\<lparr> xscore := Some (Num 0), xscoreFactor := Some (length xs) \<rparr>"
  define ix where "ix = map (symbolToIndex m1) (padInput m1 xs)"
  define m2 where "m2 = forEachPrefixPair scorePair ix m1"
  define a where "a = xscore m2"
  have "m2 = m1\<lparr> xscore := a \<rparr>"
    unfolding m2_def a_def forEachPrefixPair_def
    by (rule fold_scorePair_frame[of "\<lambda>m' i. (prefix m' ix i, elem_at ix (i + depth m'))"])
  then have m2: "m2 = m\<lparr> xscore := a, xscoreFactor := Some (length xs) \<rparr>"
    by (simp add: m1_def)
  have s: "snd (score xs m) = m2"
    by (simp add: score_def Let_def m2_def ix_def m1_def)
  show ?thesis
    unfolding s a_def[symmetric] by (rule m2)
qed

text \<open>
  C10. A call to \<^verbatim>\<open>score\<close> leaves the depth, the symbol table (\<^verbatim>\<open>symbols\<close> and
  \<^verbatim>\<open>symbolMap\<close>), the counts and the probability index (present or absent) as they
  were, and with them the separator and the paddings: the model after the call is the
  model before it with \<^verbatim>\<open>_score\<close> and \<^verbatim>\<open>_scoreFactor\<close> overwritten.
\<close>

theorem score_frame:
  "depth (snd (score xs m)) = depth m \<and>
   symbols (snd (score xs m)) = symbols m \<and>
   symbolMap (snd (score xs m)) = symbolMap m \<and>
   counts (snd (score xs m)) = counts m \<and>
   probabilities (snd (score xs m)) = probabilities m \<and>
   separator (snd (score xs m)) = separator m \<and>
   prePadding (snd (score xs m)) = prePadding m \<and>
   postPadding (snd (score xs m)) = postPadding m \<and>
   (\<exists>a f. snd (score xs m) = m\<lparr> xscore := a, xscoreFactor := f \<rparr>)"
proof -
  have "\<exists>a f. snd (score xs m) = m\<lparr> xscore := a, xscoreFactor := f \<rparr>"
    using score_state by blast
  then show ?thesis by auto
qed

text \<open>
  C3. The claim reads: for every trained model and every non-empty input sequence
  \<^verbatim>\<open>score\<close> returns a number in \<open>[0,1]\<close>. The model of depth \<open>1\<close> trained on the one
  sequence \<^verbatim>\<open>["a"]\<close> scores that sequence at \<open>2\<close>: the two windows contribute \<open>1\<close> each,
  and the sum is divided by the length \<open>1\<close> of the input.
\<close>

theorem score_exceeds_one:
  "fst (score [''a''] (train [''a''] (new_model 1))) = Num 2"
  by code_simp

text \<open>
  C9. The claim reads: scoring the empty sequence returns a fixed numeric result.
  The quotient by the length \<open>0\<close> is \<^verbatim>\<open>NaN\<close> on the new model, and \<^verbatim>\<open>Infinity\<close> on the
  model trained on the empty sequence.
\<close>

theorem score_empty_sequence:
  "fst (score [] (new_model 1)) = NaN \<and>
   fst (score [] (train [] (new_model 1))) = Infinity"
  by code_simp

subsection \<open>The probability index\<close>

text \<open>
  C1. The claim reads: after a rebuild, the list of a prefix pairs the cumulative masses
  with suffix indexes only and ends at the mass \<open>1\<close>. For the model of depth \<open>1\<close>
  trained on \<^verbatim>\<open>["a"]\<close> the list of the prefix \<^verbatim>\<open>"0"\<close> has a second entry, for the
  property \<^verbatim>\<open>_sum\<close>, and ends at the mass \<open>2\<close>.
\<close>

theorem updateProbabilities_visits_sum:
  "map_option (\<lambda>P. P ''0'') (probabilities (updateProbabilities (train [''a''] (new_model 1))))
     = Some (Some [(Num 1, Idx 1), (Num 2, USum)])"
  by code_simp

subsection \<open>Training\<close>

text \<open>A function that leaves the depth and the separator alone is called by
  \<^verbatim>\<open>forEachPrefixPair\<close> on the pairs of the sequence, one after the other.\<close>

lemma prefix_cong: "depth m' = depth m \<Longrightarrow> separator m' = separator m \<Longrightarrow> prefix m' xs i = prefix m xs i"
  by (simp add: prefix_def)

lemma fold_pairs:
  assumes f: "\<And>p m. depth (f p m) = depth m \<and> separator (f p m) = separator m"
  shows "depth m = d \<Longrightarrow> separator m = sp \<Longrightarrow>
    fold (\<lambda>i m'. f (prefix m' xs i, elem_at xs (i + depth m')) m') is m =
    fold f (map (\<lambda>i. (join sp (map idx_str (take d (drop i xs))), elem_at xs (i + d))) is) m"
proof (induction "is" arbitrary: m)
  case Nil
  show ?case by simp
next
  case (Cons i "is")
  let ?m' = "f (prefix m xs i, elem_at xs (i + depth m)) m"
  have "depth ?m' = d" "separator ?m' = sp"
    using f Cons.prems by simp_all
  from Cons.IH[OF this] show ?case
    using Cons.prems by (simp add: prefix_def)
qed

lemma forEachPrefixPair_fold:
  assumes f: "\<And>p m. depth (f p m) = depth m \<and> separator (f p m) = separator m"
  shows "forEachPrefixPair f xs m = fold f (pairs m xs) m"
  unfolding forEachPrefixPair_def pairs_def
  using fold_pairs[of f m "depth m" "separator m" xs, OF f]
  by (simp add: prefix_def)

lemma countPair_fields [simp]:
  "depth (countPair p m) = depth m" "separator (countPair p m) = separator m"
  "symbols (countPair p m) = symbols m" "symbolMap (countPair p m) = symbolMap m"
  "prePadding (countPair p m) = prePadding m" "postPadding (countPair p m) = postPadding m"
  by (simp_all add: countPair_def Let_def)

lemma count_of_countPair:
  "count_of (countPair (p, s) m) p' (key_of s') =
     count_of m p' (key_of s') + (if p = p' \<and> s = s' then 1 else 0)"
  by (cases s; cases s')
     (auto simp: count_of_def countPair_def Let_def update_conv' split: option.splits)

lemma total_of_countPair:
  "count_of (countPair (p, s) m) p' USum = count_of m p' USum + (if p = p' then 1 else 0)"
  by (auto simp: count_of_def countPair_def Let_def split: option.splits)

lemma count_of_fold_countPair:
  "count_of (fold countPair ws m) p (key_of s) = count_of m p (key_of s) + count_list ws (p, s)"
proof (induction ws arbitrary: m)
  case Nil
  show ?case by simp
next
  case (Cons w ws)
  obtain q t where w: "w = (q, t)" by (cases w)
  show ?case
    by (auto simp: w Cons.IH count_of_countPair)
qed

lemma total_of_fold_countPair:
  "count_of (fold countPair ws m) p USum = count_of m p USum + length (filter (\<lambda>w. fst w = p) ws)"
proof (induction ws arbitrary: m)
  case Nil
  show ?case by simp
next
  case (Cons w ws)
  obtain q t where w: "w = (q, t)" by (cases w)
  show ?case
    by (auto simp: w Cons.IH total_of_countPair)
qed

lemma fold_countPair_fields [simp]:
  "depth (fold countPair ws m) = depth m" "separator (fold countPair ws m) = separator m"
  "symbols (fold countPair ws m) = symbols m" "symbolMap (fold countPair ws m) = symbolMap m"
  "prePadding (fold countPair ws m) = prePadding m" "postPadding (fold countPair ws m) = postPadding m"
  by (induction ws arbitrary: m) simp_all

lemma train_unfold:
  "train xs m = resetProbabilities (fold countPair (windows (fold addSymbol xs m) xs) (fold addSymbol xs m))"
  by (simp add: train_def Let_def windows_def forEachPrefixPair_fold)

lemma windows_cong:
  "depth m' = depth m \<Longrightarrow> separator m' = separator m \<Longrightarrow> symbolMap m' = symbolMap m \<Longrightarrow>
   prePadding m' = prePadding m \<Longrightarrow> postPadding m' = postPadding m \<Longrightarrow> windows m' xs = windows m xs"
proof -
  assume a: "depth m' = depth m" "separator m' = separator m" "symbolMap m' = symbolMap m"
    "prePadding m' = prePadding m" "postPadding m' = postPadding m"
  have "symbolToIndex m' = symbolToIndex m"
    by (rule ext) (simp add: symbolToIndex_def a)
  then show ?thesis
    by (simp add: windows_def pairs_def prefix_def padInput_def a)
qed

lemma windows_train: "windows (train xs m) xs = windows (fold addSymbol xs m) xs"
  by (rule windows_cong) (simp_all add: train_unfold resetProbabilities_def)

lemma addSymbol_counts [simp]: "counts (addSymbol x m) = counts m"
  by (simp add: addSymbol_def)

lemma fold_addSymbol_counts [simp]: "counts (fold addSymbol xs m) = counts m"
  by (induction xs arbitrary: m) simp_all

lemma count_of_cong: "counts m' = counts m \<Longrightarrow> count_of m' p k = count_of m p k"
  by (simp add: count_of_def)

lemma count_of_train:
  "count_of (train xs m) p (key_of s) = count_of m p (key_of s) + count_list (windows (train xs m) xs) (p, s)"
proof -
  let ?m1 = "fold addSymbol xs m"
  have "count_of (train xs m) p (key_of s) = count_of (fold countPair (windows ?m1 xs) ?m1) p (key_of s)"
    by (rule count_of_cong) (simp add: train_unfold resetProbabilities_def)
  also have "\<dots> = count_of ?m1 p (key_of s) + count_list (windows ?m1 xs) (p, s)"
    by (rule count_of_fold_countPair)
  also have "count_of ?m1 p (key_of s) = count_of m p (key_of s)"
    by (rule count_of_cong) simp
  finally show ?thesis by (simp add: windows_train)
qed

lemma total_of_train:
  "count_of (train xs m) p USum = count_of m p USum + length (filter (\<lambda>w. fst w = p) (windows (train xs m) xs))"
proof -
  let ?m1 = "fold addSymbol xs m"
  have "count_of (train xs m) p USum = count_of (fold countPair (windows ?m1 xs) ?m1) p USum"
    by (rule count_of_cong) (simp add: train_unfold resetProbabilities_def)
  also have "\<dots> = count_of ?m1 p USum + length (filter (\<lambda>w. fst w = p) (windows ?m1 xs))"
    by (rule total_of_fold_countPair)
  also have "count_of ?m1 p USum = count_of m p USum"
    by (rule count_of_cong) simp
  finally show ?thesis by (simp add: windows_train)
qed

text \<open>
  C4. Training is additive. After training on \<open>A\<close> and then on \<open>B\<close>, the count of every
  suffix under every prefix is the count before plus the number of windows of \<open>A\<close> and
  of \<open>B\<close> with that prefix and suffix, and the total of every prefix is the total before
  plus the number of windows of \<open>A\<close> and of \<open>B\<close> with that prefix. No count and no total
  is smaller after a call of \<^verbatim>\<open>train\<close> than before it.
\<close>

theorem train_additive:
  "count_of (train B (train A m)) p (key_of s) =
     count_of m p (key_of s) + count_list (windows (train A m) A) (p, s)
       + count_list (windows (train B (train A m)) B) (p, s) \<and>
   count_of (train B (train A m)) p USum =
     count_of m p USum + length (filter (\<lambda>w. fst w = p) (windows (train A m) A))
       + length (filter (\<lambda>w. fst w = p) (windows (train B (train A m)) B)) \<and>
   count_of m p k \<le> count_of (train A m) p k"
proof -
  have "count_of m p k \<le> count_of (train A m) p k"
  proof (cases k)
    case (Idx n)
    then show ?thesis using count_of_train[of A m p "Some n"] by simp
  next
    case USum
    then show ?thesis using total_of_train[of A m p] by simp
  next
    case Undef
    then show ?thesis using count_of_train[of A m p None] by simp
  qed
  then show ?thesis
    by (simp add: count_of_train total_of_train)
qed


subsection \<open>The symbol table and the snapshots\<close>

lemma table_ok_new_model: "table_ok (new_model d)"
  by (auto simp: table_ok_def new_model_def)

lemma well_formed_new_model: "1 \<le> d \<Longrightarrow> d < 2 ^ 32 \<Longrightarrow> well_formed (new_model d)"
  using table_ok_new_model[of d] by (simp add: well_formed_def) (simp add: new_model_def)

lemma table_ok_None: "table_ok m \<Longrightarrow> symbolMap m x = None \<longleftrightarrow> x \<notin> set (symbols m)"
  unfolding table_ok_def
  by (metis in_set_conv_nth not_None_eq)

lemma table_ok_addSymbol: "table_ok m \<Longrightarrow> table_ok (addSymbol x m)"
proof -
  assume ok: "table_ok m"
  show ?thesis
  proof (cases "symbolMap m x")
    case (Some i)
    then show ?thesis using ok by (simp add: addSymbol_def)
  next
    case None
    then have fresh: "x \<notin> set (symbols m)" using ok table_ok_None by blast
    have iff: "\<And>y i. symbolMap m y = Some i \<longleftrightarrow> (i < length (symbols m) \<and> symbols m ! i = y)"
      using ok by (simp add: table_ok_def)
    show ?thesis
      unfolding table_ok_def
      using None fresh ok
      by (auto simp: addSymbol_def nth_append iff table_ok_def)
  qed
qed

lemma addSymbol_fields [simp]:
  "depth (addSymbol x m) = depth m" "separator (addSymbol x m) = separator m"
  "prePadding (addSymbol x m) = prePadding m" "postPadding (addSymbol x m) = postPadding m"
  "probabilities (addSymbol x m) = probabilities m" "xscore (addSymbol x m) = xscore m"
  "xscoreFactor (addSymbol x m) = xscoreFactor m"
  by (simp_all add: addSymbol_def)

lemma fold_addSymbol_fields [simp]:
  "depth (fold addSymbol xs m) = depth m" "separator (fold addSymbol xs m) = separator m"
  "prePadding (fold addSymbol xs m) = prePadding m" "postPadding (fold addSymbol xs m) = postPadding m"
  "probabilities (fold addSymbol xs m) = probabilities m" "xscore (fold addSymbol xs m) = xscore m"
  "xscoreFactor (fold addSymbol xs m) = xscoreFactor m"
  by (induction xs arbitrary: m) simp_all

lemma table_ok_fold_addSymbol: "table_ok m \<Longrightarrow> table_ok (fold addSymbol xs m)"
  by (induction xs arbitrary: m) (simp_all add: table_ok_addSymbol)

lemma table_ok_cong:
  "symbols m' = symbols m \<Longrightarrow> symbolMap m' = symbolMap m \<Longrightarrow> table_ok m' = table_ok m"
  by (simp add: table_ok_def)

lemma well_formed_cong:
  "symbols m' = symbols m \<Longrightarrow> symbolMap m' = symbolMap m \<Longrightarrow> depth m' = depth m \<Longrightarrow>
   separator m' = separator m \<Longrightarrow> prePadding m' = prePadding m \<Longrightarrow> postPadding m' = postPadding m \<Longrightarrow>
   well_formed m' = well_formed m"
  by (simp add: well_formed_def table_ok_def)

lemma well_formed_fold_addSymbol: "well_formed m \<Longrightarrow> well_formed (fold addSymbol xs m)"
  by (simp add: well_formed_def table_ok_fold_addSymbol)

lemma well_formed_train: "well_formed m \<Longrightarrow> well_formed (train xs m)"
proof -
  assume "well_formed m"
  then have "well_formed (fold addSymbol xs m)" by (rule well_formed_fold_addSymbol)
  moreover have "well_formed (train xs m) = well_formed (fold addSymbol xs m)"
    by (rule well_formed_cong) (simp_all add: train_unfold resetProbabilities_def)
  ultimately show ?thesis by simp
qed

lemma generate_state:
  "snd (generate minLength maxLength rnd m) = (if probabilities m = None then updateProbabilities m else m)"
  by (simp add: generate_def Let_def)

lemma well_formed_generate: "well_formed m \<Longrightarrow> well_formed (snd (generate minLength maxLength rnd m))"
proof -
  assume w: "well_formed m"
  have "well_formed (snd (generate minLength maxLength rnd m)) = well_formed m"
    by (rule well_formed_cong) (simp_all add: generate_state updateProbabilities_def)
  then show ?thesis using w by simp
qed

lemma well_formed_score: "well_formed m \<Longrightarrow> well_formed (snd (score xs m))"
proof -
  assume w: "well_formed m"
  have "well_formed (snd (score xs m)) = well_formed m"
    by (rule well_formed_cong) (subst score_state, simp)+
  then show ?thesis using w by simp
qed

text \<open>Interning the symbols of a table again, into the table of a new model, gives the table back.\<close>

lemma fold_addSymbol_fresh:
  "table_ok M \<Longrightarrow> distinct (symbols M @ ys) \<Longrightarrow> symbols (fold addSymbol ys M) = symbols M @ ys"
proof (induction ys arbitrary: M)
  case Nil
  show ?case by simp
next
  case (Cons y ys)
  have "y \<notin> set (symbols M)" using Cons.prems(2) by auto
  then have none: "symbolMap M y = None" using Cons.prems(1) table_ok_None by blast
  then have sy: "symbols (addSymbol y M) = symbols M @ [y]" by (simp add: addSymbol_def)
  have "symbols (fold addSymbol ys (addSymbol y M)) = symbols (addSymbol y M) @ ys"
    by (rule Cons.IH) (use Cons.prems sy in \<open>simp_all add: table_ok_addSymbol\<close>)
  then show ?case by (simp add: sy)
qed

lemma table_ok_symbolMap_eq:
  assumes "table_ok a" "table_ok b" "symbols a = symbols b"
  shows "symbolMap a = symbolMap b"
proof (rule ext)
  fix x
  have ia: "\<And>i. symbolMap a x = Some i \<longleftrightarrow> (i < length (symbols a) \<and> symbols a ! i = x)"
    using assms(1) by (simp add: table_ok_def)
  have ib: "\<And>i. symbolMap b x = Some i \<longleftrightarrow> (i < length (symbols a) \<and> symbols a ! i = x)"
    using assms(2,3) by (simp add: table_ok_def)
  show "symbolMap a x = symbolMap b x"
  proof (cases "symbolMap a x")
    case None
    then show ?thesis using ia ib by (metis not_None_eq)
  next
    case (Some i)
    then show ?thesis using ia ib by metis
  qed
qed

lemma intern_again:
  assumes "table_ok m"
  shows "symbols (fold addSymbol (symbols m) (new_model d)) = symbols m"
    and "symbolMap (fold addSymbol (symbols m) (new_model d)) = symbolMap m"
proof -
  obtain rest where rest: "symbols m = '''' # rest"
    using assms by (cases "symbols m") (auto simp: table_ok_def)
  have a0: "addSymbol '''' (new_model d) = new_model d"
    by (simp add: addSymbol_def new_model_def)
  have "symbols (fold addSymbol rest (new_model d)) = symbols (new_model d) @ rest"
    by (rule fold_addSymbol_fresh)
       (use assms rest in \<open>auto simp: table_ok_new_model new_model_def table_ok_def\<close>)
  then show s: "symbols (fold addSymbol (symbols m) (new_model d)) = symbols m"
    by (simp add: rest a0) (simp add: new_model_def)
  show "symbolMap (fold addSymbol (symbols m) (new_model d)) = symbolMap m"
    by (rule table_ok_symbolMap_eq)
       (simp_all add: s assms table_ok_fold_addSymbol table_ok_new_model)
qed

lemma fromJSON_toJSON:
  assumes "well_formed m"
  shows "fromJSON (toJSON m) = Inr (m\<lparr> probabilities := None, xscore := None, xscoreFactor := None \<rparr>)"
proof -
  have d: "Markov (Some (int (depth m))) = Inr (new_model (depth m))"
    using assms by (auto simp: Markov_def well_formed_def)
  have t: "table_ok m" using assms by (simp add: well_formed_def)
  have "(fold addSymbol (symbols m) (new_model (depth m)))\<lparr> counts := counts m \<rparr>
          = m\<lparr> probabilities := None, xscore := None, xscoreFactor := None \<rparr>"
    by (rule model.equality)
       (use assms in \<open>simp_all add: intern_again[OF t] well_formed_def\<close>, simp_all add: new_model_def)
  then show ?thesis
    by (simp add: fromJSON_def toJSON_def d)
qed

lemma reachable_well_formed: "reachable m \<Longrightarrow> well_formed m"
proof (induction rule: reachable.induct)
  case (r_new d m)
  then show ?case
    by (auto simp: Markov_def Let_def well_formed_new_model split: option.splits if_splits)
next
  case (r_train m xs)
  then show ?case by (simp add: well_formed_train)
next
  case (r_generate m minLength maxLength rnd)
  then show ?case by (simp add: well_formed_generate)
next
  case (r_score m xs)
  then show ?case by (simp add: well_formed_score)
next
  case (r_json m m')
  then have "m' = m\<lparr> probabilities := None, xscore := None, xscoreFactor := None \<rparr>"
    by (simp add: fromJSON_toJSON)
  moreover have "well_formed (m\<lparr> probabilities := None, xscore := None, xscoreFactor := None \<rparr>) = well_formed m"
    by (rule well_formed_cong) simp_all
  ultimately show ?case using r_json.IH by simp
qed

text \<open>
  C7. In every reachable model, index \<open>0\<close> holds the boundary symbol, the boundary symbol
  resolves to index \<open>0\<close>, and no other symbol resolves to index \<open>0\<close>. As this holds in
  every reachable state, no operation reassigns index \<open>0\<close>.
\<close>

theorem boundary_index:
  assumes "reachable m"
  shows "symbols m \<noteq> [] \<and> symbols m ! 0 = '''' \<and> symbolMap m '''' = Some 0 \<and>
         (\<forall>x. symbolMap m x = Some 0 \<longrightarrow> x = '''')"
proof -
  have "table_ok m" using assms reachable_well_formed well_formed_def by blast
  then show ?thesis
    unfolding table_ok_def by (metis length_greater_0_conv)
qed

lemma score_ignores_accumulators: "score xs (m\<lparr> xscore := a, xscoreFactor := f \<rparr>) = score xs m"
  by (simp add: score_def)

lemma scorePair_fields [simp]:
  "depth (scorePair w m) = depth m" "separator (scorePair w m) = separator m"
  by (subst scorePair_frame, simp)+

lemma scorePair_probabilities:
  "scorePair w (m\<lparr> probabilities := P \<rparr>) = (scorePair w m)\<lparr> probabilities := P \<rparr>"
  by (simp add: scorePair_def Let_def split: option.splits)

lemma fold_scorePair_probabilities:
  "fold scorePair ws (m\<lparr> probabilities := P \<rparr>) = (fold scorePair ws m)\<lparr> probabilities := P \<rparr>"
  by (induction ws arbitrary: m) (simp_all add: scorePair_probabilities)

lemma pairs_cong: "depth m' = depth m \<Longrightarrow> separator m' = separator m \<Longrightarrow> pairs m' xs = pairs m xs"
  by (simp add: pairs_def prefix_def)

lemma score_ignores_probabilities: "fst (score xs (m\<lparr> probabilities := P \<rparr>)) = fst (score xs m)"
proof -
  define m1 where "m1 = m\<lparr> xscore := Some (Num 0), xscoreFactor := Some (length xs) \<rparr>"
  define m1P where "m1P = m\<lparr> probabilities := P \<rparr>\<lparr> xscore := Some (Num 0), xscoreFactor := Some (length xs) \<rparr>"
  have m1P: "m1P = m1\<lparr> probabilities := P \<rparr>"
    by (simp add: m1P_def m1_def)
  have st: "symbolToIndex m1P = symbolToIndex m1"
    by (rule ext) (simp add: symbolToIndex_def m1P)
  have pd: "padInput m1P xs = padInput m1 xs"
    by (simp add: padInput_def m1P)
  define ix where "ix = map (symbolToIndex m1) (padInput m1 xs)"
  have f: "forEachPrefixPair scorePair ix m1P = (forEachPrefixPair scorePair ix m1)\<lparr> probabilities := P \<rparr>"
    unfolding m1P
    by (simp add: forEachPrefixPair_fold fold_scorePair_probabilities
          pairs_cong[of "m1\<lparr> probabilities := P \<rparr>" m1])
  have l: "fst (score xs (m\<lparr> probabilities := P \<rparr>))
         = num_div (of_num (xscore (forEachPrefixPair scorePair ix m1P)))
                   (of_count (xscoreFactor (forEachPrefixPair scorePair ix m1P)))"
    unfolding score_def Let_def m1P_def[symmetric] st pd ix_def[symmetric] by simp
  have r: "fst (score xs m)
         = num_div (of_num (xscore (forEachPrefixPair scorePair ix m1)))
                   (of_count (xscoreFactor (forEachPrefixPair scorePair ix m1)))"
    unfolding score_def Let_def m1_def[symmetric] ix_def[symmetric] by simp
  show ?thesis
    unfolding l r f by simp
qed

lemma addSymbol_ignores:
  "addSymbol x (m\<lparr> probabilities := P, xscore := a, xscoreFactor := f \<rparr>)
     = (addSymbol x m)\<lparr> probabilities := P, xscore := a, xscoreFactor := f \<rparr>"
  by (simp add: addSymbol_def)

lemma fold_addSymbol_ignores:
  "fold addSymbol xs (m\<lparr> probabilities := P, xscore := a, xscoreFactor := f \<rparr>)
     = (fold addSymbol xs m)\<lparr> probabilities := P, xscore := a, xscoreFactor := f \<rparr>"
  by (induction xs arbitrary: m) (simp_all add: addSymbol_ignores)

lemma countPair_ignores:
  "countPair w (m\<lparr> probabilities := P, xscore := a, xscoreFactor := f \<rparr>)
     = (countPair w m)\<lparr> probabilities := P, xscore := a, xscoreFactor := f \<rparr>"
  by (simp add: countPair_def Let_def)

lemma fold_countPair_ignores:
  "fold countPair ws (m\<lparr> probabilities := P, xscore := a, xscoreFactor := f \<rparr>)
     = (fold countPair ws m)\<lparr> probabilities := P, xscore := a, xscoreFactor := f \<rparr>"
  by (induction ws arbitrary: m) (simp_all add: countPair_ignores)

lemma train_ignores:
  "train ys (m\<lparr> probabilities := P, xscore := a, xscoreFactor := f \<rparr>)
     = (train ys m)\<lparr> xscore := a, xscoreFactor := f \<rparr>"
proof -
  define m1 where "m1 = fold addSymbol ys m"
  have w: "windows (m1\<lparr> probabilities := P, xscore := a, xscoreFactor := f \<rparr>) ys = windows m1 ys"
    by (rule windows_cong) simp_all
  show ?thesis
    unfolding train_unfold fold_addSymbol_ignores m1_def[symmetric] w fold_countPair_ignores
    by (simp add: resetProbabilities_def)
qed

text \<open>
  C5. Serialisation round trip. For every reachable model, deserialising its snapshot
  succeeds and gives a model with the same depth, symbol table and counts and no
  probability index; \<^verbatim>\<open>score\<close> returns the same number on both models for every input,
  and so does \<^verbatim>\<open>score\<close> after \<^verbatim>\<open>train\<close> on any sequence.
\<close>

theorem json_round_trip:
  assumes "reachable m"
  shows "\<exists>m'. fromJSON (toJSON m) = Inr m' \<and>
           depth m' = depth m \<and> symbols m' = symbols m \<and> symbolMap m' = symbolMap m \<and>
           counts m' = counts m \<and> probabilities m' = None \<and>
           (\<forall>xs. fst (score xs m') = fst (score xs m)) \<and>
           (\<forall>ys xs. fst (score xs (train ys m')) = fst (score xs (train ys m)))"
proof -
  define m' where "m' = m\<lparr> probabilities := None, xscore := None, xscoreFactor := None \<rparr>"
  have j: "fromJSON (toJSON m) = Inr m'"
    unfolding m'_def using assms by (simp add: fromJSON_toJSON reachable_well_formed)
  have s: "fst (score xs m') = fst (score xs m)" for xs
  proof -
    have "score xs m' = score xs (m\<lparr> probabilities := None \<rparr>)"
      unfolding m'_def using score_ignores_accumulators[where m = "m\<lparr> probabilities := None \<rparr>" and a = None and f = None and xs = xs]
      by simp
    then show ?thesis by (simp add: score_ignores_probabilities)
  qed
  have t: "fst (score xs (train ys m')) = fst (score xs (train ys m))" for ys xs
    unfolding m'_def train_ignores by (simp add: score_ignores_accumulators)
  show ?thesis
    using j s t by (simp add: m'_def)
qed

lemma reachable_example: "reachable (train [''a''] (new_model 1))"
proof -
  have "Markov None = Inr (new_model 1)" by (simp add: Markov_def)
  then have "reachable (new_model 1)" by (rule r_new)
  then show ?thesis by (rule r_train)
qed

theorem json_round_trip_witness:
  "\<exists>m'. fromJSON (toJSON (train [''a''] (new_model 1))) = Inr m' \<and>
        symbols m' = symbols (train [''a''] (new_model 1)) \<and>
        counts m' = counts (train [''a''] (new_model 1)) \<and>
        probabilities m' = None \<and>
        fst (score [''a''] m') = fst (score [''a''] (train [''a''] (new_model 1)))"
  using json_round_trip [OF reachable_example] by blast

theorem boundary_index_witness:
  "reachable (train [''a''] (new_model 1)) \<and>
   symbols (train [''a''] (new_model 1)) ! 0 = '''' \<and>
   symbolMap (train [''a''] (new_model 1)) '''' = Some 0"
  using boundary_index [OF reachable_example] reachable_example by simp

subsection \<open>Generation\<close>




lemma chain_ok_mass:
  assumes "chain_ok c"
  defines "ns \<equiv> map (\<lambda>p. the (fst p)) (props c)"
  shows "(\<Sum>k\<leftarrow>sort (remdups ns). (of_nat (the (map_of (props c) (Some k))) :: rat) / of_nat (usum c)) = 1"
    and "distinct ns" and "0 < usum c"
    and "\<forall>k\<in>set ns. \<exists>n. map_of (props c) (Some k) = Some n"
    and "ns \<noteq> []"
proof -
  have some: "\<forall>e \<in> set (props c). fst e \<noteq> None \<and> 0 < snd e" using assms(1) by (simp add: chain_ok_def)
  have d: "distinct (map fst (props c))" using assms(1) by (simp add: chain_ok_def)
  have ne: "props c \<noteq> []" using assms(1) by (simp add: chain_ok_def)
  have us: "usum c = sum_list (map snd (props c))" using assms(1) by (simp add: chain_ok_def)
  show "ns \<noteq> []" using ne by (simp add: ns_def)
  have "map fst (props c) = map Some ns"
    using some by (auto simp: ns_def)
  then have "distinct (map Some ns)" using d by simp
  then show dn: "distinct ns" by (simp add: distinct_map)
  obtain e where e: "e \<in> set (props c)" using ne by (cases "props c") auto
  then have "0 < snd e" using some by blast
  moreover have "snd e \<le> sum_list (map snd (props c))"
    using e by (simp add: member_le_sum_list)
  ultimately show pos: "0 < usum c" using us by simp
  have look: "map_of (props c) (fst x) = Some (snd x)" if "x \<in> set (props c)" for x
    by (rule map_of_is_SomeI[OF d]) (use that in simp)
  show "\<forall>k\<in>set ns. \<exists>n. map_of (props c) (Some k) = Some n"
  proof
    fix k assume "k \<in> set ns"
    then obtain e where e: "e \<in> set (props c)" "k = the (fst e)" by (auto simp: ns_def)
    then have "fst e = Some k" using some by auto
    then show "\<exists>n. map_of (props c) (Some k) = Some n" using look[OF e(1)] by auto
  qed
  let ?f = "\<lambda>k. (of_nat (the (map_of (props c) (Some k))) :: rat) / of_nat (usum c)"
  have "sum_list (map ?f (sort (remdups ns))) = sum ?f (set (sort (remdups ns)))"
    by (rule sum_list_distinct_conv_sum_set) simp
  also have "\<dots> = sum ?f (set ns)" by simp
  also have "\<dots> = sum_list (map ?f ns)"
    by (rule sum_list_distinct_conv_sum_set[symmetric]) (rule dn)
  also have "\<dots> = sum_list (map (\<lambda>e. of_nat (snd e) / of_nat (usum c)) (props c))"
  proof -
    have "?f (the (fst e)) = of_nat (snd e) / of_nat (usum c)" if "e \<in> set (props c)" for e
    proof -
      have "fst e = Some (the (fst e))" using that some by auto
      then have "map_of (props c) (Some (the (fst e))) = Some (snd e)" using look[OF that] by simp
      then show ?thesis by simp
    qed
    then have A: "map (\<lambda>e. ?f (the (fst e))) (props c) = map (\<lambda>e. of_nat (snd e) / of_nat (usum c)) (props c)"
      by (intro map_cong refl)
    have B: "map ?f ns = map (\<lambda>e. ?f (the (fst e))) (props c)"
      by (simp add: ns_def comp_def)
    show ?thesis unfolding B A by (rule refl)
  qed
  also have "\<dots> = of_nat (sum_list (map snd (props c))) / of_nat (usum c)"
  proof -
    have "sum_list (map (\<lambda>e. of_nat (snd e) / q) ps) = of_nat (sum_list (map snd ps)) / q"
      for ps :: "(nat option \<times> nat) list" and q :: rat
      by (induction ps) (simp_all add: add_divide_distrib)
    then show ?thesis by blast
  qed
  finally have fin: "(\<Sum>k\<leftarrow>sort (remdups ns). ?f k)
      = of_nat (sum_list (map snd (props c))) / of_nat (usum c)" .
  have one: "(of_nat (sum_list (map snd (props c))) :: rat) / of_nat (usum c) = 1"
    unfolding us[symmetric] using pos by simp
  show "(\<Sum>k\<leftarrow>sort (remdups ns). ?f k) = 1"
    by (simp only: fin one)
qed









text \<open>Under \<open>chain_ok\<close>, presence is the same as a positive count.\<close>

lemma present_total:
  assumes "\<forall>p c. counts m p = Some c \<longrightarrow> chain_ok c"
  shows "counts m p \<noteq> None \<longleftrightarrow> 0 < count_of m p USum"
proof (cases "counts m p")
  case None
  then show ?thesis by (simp add: count_of_def)
next
  case (Some c)
  then have "chain_ok c" using assms by blast
  then have "0 < usum c" by (rule chain_ok_mass(3))
  then show ?thesis using Some by (simp add: count_of_def)
qed
































end
